theory Spec2Isabelle
  imports Main "HOL-Library.Word"
begin

section \<open>Python values and exceptions\<close>

text \<open>
  The module \<^verbatim>\<open>lib/core/patch.py\<close> is Python: integers are unbounded (\<open>int\<close>), and
  an operation that raises is a value \<open>Inl e\<close> of a sum type. Only the built-in
  exceptions that the modelled functions can raise are listed.
\<close>

datatype error = ZeroDivisionError | IndexError | ValueError

text \<open>
  Python's \<^verbatim>\<open>x % n\<close> on integers: the result takes the sign of the divisor (as HOL's
  \<open>mod\<close> on \<open>int\<close> does), and a zero divisor raises.
\<close>

definition py_mod :: "int \<Rightarrow> int \<Rightarrow> error + int" where
  "py_mod x n = (if n = 0 then Inl ZeroDivisionError else Inr (x mod n))"

text \<open>
  Python's \<^verbatim>\<open>seq[i]\<close> on a list: a negative index counts from the end, an index out
  of range raises.
\<close>

definition getitem :: "'a list \<Rightarrow> int \<Rightarrow> error + 'a" where
  "getitem seq i =
     (let n = int (length seq); j = (if i < 0 then n + i else i)
      in if 0 \<le> j \<and> j < n then Inr (seq ! nat j) else Inl IndexError)"

section \<open>The generator of \<^verbatim>\<open>unisonRandom\<close>\<close>

text \<open>
  The generator's state is the module global \<^verbatim>\<open>_rand\<close>, initially 0. Every function
  takes the current value of the global as its last argument and returns its outcome
  paired with the new value. The pair is returned also when the outcome is an
  exception: an assignment to a global made before the \<^verbatim>\<open>raise\<close> stays in effect.
\<close>

definition rand_init :: int where
  "rand_init = 0"

text \<open>
  \<^verbatim>\<open>
  def _lcg():
      global _rand
      a = 1140671485
      c = 128201163
      m = 2 ** 24
      _rand = (a * _rand + c) % m
      return _rand
  \<close>
\<close>

definition lcg :: "int \<Rightarrow> int \<times> int" where
  "lcg rand =
     (let a = 1140671485; c = 128201163; m = 2 ^ 24;
          rand' = (a * rand + c) mod m
      in (rand', rand'))"

text \<open>
  \<^verbatim>\<open>
  def _randint(a, b):
      _ = a + (_lcg() % (b - a + 1))
      return _
  \<close>
  The operands are evaluated left to right, so \<^verbatim>\<open>_lcg()\<close> has run, and the global
  is updated, before the modulo can raise.
\<close>

definition randint :: "int \<Rightarrow> int \<Rightarrow> int \<Rightarrow> (error + int) \<times> int" where
  "randint a b rand =
     (case lcg rand of (v, rand') \<Rightarrow>
        (case py_mod v (b - a + 1) of
           Inl e \<Rightarrow> (Inl e, rand')
         | Inr q \<Rightarrow> (Inr (a + q), rand')))"

text \<open>
  \<^verbatim>\<open>
  def _choice(seq):
      return seq[_randint(0, len(seq) - 1)]
  \<close>
\<close>

definition choice :: "'a list \<Rightarrow> int \<Rightarrow> (error + 'a) \<times> int" where
  "choice seq rand =
     (case randint 0 (int (length seq) - 1) rand of
        (Inl e, rand') \<Rightarrow> (Inl e, rand')
      | (Inr i, rand') \<Rightarrow> (getitem seq i, rand'))"

text \<open>
  \<^verbatim>\<open>
  def _sample(population, k):
      return [_choice(population) for _ in xrange(k)]
  \<close>
  The comprehension is a loop of \<^verbatim>\<open>k\<close> rounds (none when \<^verbatim>\<open>k\<close> is not positive)
  that appends each pick to the list built so far; an exception in a round ends it.
\<close>

fun sample_loop :: "'a list \<Rightarrow> nat \<Rightarrow> 'a list \<Rightarrow> int \<Rightarrow> (error + 'a list) \<times> int" where
  "sample_loop population 0 acc rand = (Inr acc, rand)"
| "sample_loop population (Suc n) acc rand =
     (case choice population rand of
        (Inl e, rand') \<Rightarrow> (Inl e, rand')
      | (Inr x, rand') \<Rightarrow> sample_loop population n (acc @ [x]) rand')"

definition sample :: "'a list \<Rightarrow> int \<Rightarrow> int \<Rightarrow> (error + 'a list) \<times> int" where
  "sample population k rand = sample_loop population (nat k) [] rand"

text \<open>
  \<^verbatim>\<open>
  def _seed(seed):
      global _rand
      _rand = seed
  \<close>
\<close>

definition seed :: "int \<Rightarrow> int \<Rightarrow> unit \<times> int" where
  "seed s rand = ((), s)"

text \<open>
  A caller that draws once for each pair of bounds of a list, in order, and collects
  the results: \<^verbatim>\<open>[random.randint(a, b) for (a, b) in bounds]\<close>.
\<close>

fun draws :: "(int \<times> int) list \<Rightarrow> int \<Rightarrow> (error + int list) \<times> int" where
  "draws [] rand = (Inr [], rand)"
| "draws ((a, b) # bounds) rand =
     (case randint a b rand of
        (Inl e, rand') \<Rightarrow> (Inl e, rand')
      | (Inr v, rand') \<Rightarrow>
          (case draws bounds rand' of
             (Inl e, rand'') \<Rightarrow> (Inl e, rand'')
           | (Inr vs, rand'') \<Rightarrow> (Inr (v # vs), rand'')))"

text \<open>The elements that \<open>n\<close> successive picks from a non-empty list select.\<close>

fun picks :: "'a list \<Rightarrow> nat \<Rightarrow> int \<Rightarrow> 'a list" where
  "picks xs 0 rand = []"
| "picks xs (Suc n) rand =
     xs ! nat (fst (lcg rand) mod int (length xs)) # picks xs n (snd (lcg rand))"

text \<open>The value of the global after \<open>n\<close> successive calls of \<^verbatim>\<open>_lcg\<close>.\<close>

fun lcg_iter :: "nat \<Rightarrow> int \<Rightarrow> int" where
  "lcg_iter 0 rand = rand"
| "lcg_iter (Suc n) rand = lcg_iter n (snd (lcg rand))"

section \<open>The decoding error handler \<^verbatim>\<open>_reversible\<close>\<close>

text \<open>
  The handler receives a \<^verbatim>\<open>UnicodeDecodeError\<close>, of which it reads the attributes
  \<^verbatim>\<open>object\<close> (the bytes being decoded), \<^verbatim>\<open>start\<close> and \<^verbatim>\<open>end\<close> (the failing
  span). A unicode string is the list of its code points.
\<close>

type_synonym byte = "8 word"

type_synonym unicode = "nat list"

record decode_error =
  ex_object :: "byte list"
  ex_start :: nat
  ex_end :: nat

text \<open>Python's \<^verbatim>\<open>seq[i:j]\<close> for indices that are not negative.\<close>

definition slice :: "'a list \<Rightarrow> nat \<Rightarrow> nat \<Rightarrow> 'a list" where
  "slice seq i j = take (j - i) (drop i seq)"

text \<open>
  Python's \<^verbatim>\<open>'%x' % v\<close> for \<^verbatim>\<open>v >= 0\<close>: the digits of \<^verbatim>\<open>v\<close> in base 16, in lower
  case, with no prefix; \<^verbatim>\<open>'%2x' % v\<close> pads them on the left with spaces to a
  width of at least two.
\<close>

definition hex_digit :: "nat \<Rightarrow> char" where
  \<comment> \<open>for \<open>d < 16\<close>, the character of \<^verbatim>\<open>0123456789abcdef\<close> at index \<open>d\<close>
    (\<^verbatim>\<open>0\<close> has code 48, \<^verbatim>\<open>a\<close> has code 97)\<close>
  "hex_digit d = char_of (if d < 10 then 48 + d else 87 + d)"

fun hex_str :: "nat \<Rightarrow> string" where
  "hex_str n = (if n < 16 then [hex_digit n] else hex_str (n div 16) @ [hex_digit (n mod 16)])"

definition fmt_2x :: "nat \<Rightarrow> string" where
  "fmt_2x v = (let s = hex_str v in replicate (2 - length s) CHR '' '' @ s)"

text \<open>
  Python's \<^verbatim>\<open>int(s, 16)\<close> on a string of ASCII characters: white space is stripped
  at both ends, then come an optional sign, an optional prefix \<^verbatim>\<open>0x\<close> or \<^verbatim>\<open>0X\<close>
  and at least one hexadecimal digit; anything else raises \<^verbatim>\<open>ValueError\<close>.
  (Python 3 accepts single underscores between digits as well, Python 2 does not;
  the strings parsed here hold none.)
\<close>

definition is_space :: "char \<Rightarrow> bool" where
  \<comment> \<open>the space (code 32) and the control characters from tab to carriage return (9 to 13)\<close>
  "is_space c = (let n = (of_char c :: nat) in n = 32 \<or> (9 \<le> n \<and> n \<le> 13))"

definition strip :: "string \<Rightarrow> string" where
  "strip s = rev (dropWhile is_space (rev (dropWhile is_space s)))"

definition hex_val :: "char \<Rightarrow> nat option" where
  "hex_val c =
     (let n = (of_char c :: nat)
      in if 48 \<le> n \<and> n \<le> 57 then Some (n - 48)
         else if 97 \<le> n \<and> n \<le> 102 then Some (n - 87)
         else if 65 \<le> n \<and> n \<le> 70 then Some (n - 55)
         else None)"

fun hex_digits_val :: "string \<Rightarrow> nat \<Rightarrow> nat option" where
  "hex_digits_val [] acc = Some acc"
| "hex_digits_val (c # cs) acc =
     (case hex_val c of None \<Rightarrow> None | Some d \<Rightarrow> hex_digits_val cs (16 * acc + d))"

definition int16 :: "string \<Rightarrow> error + int" where
  "int16 s =
     (let t = strip s;
          (neg, u) = (case t of
                        c # r \<Rightarrow> if c = CHR ''-'' then (True, r)
                                 else if c = CHR ''+'' then (False, r) else (False, t)
                      | [] \<Rightarrow> (False, t));
          ds = (case u of
                  c # x # r \<Rightarrow> if c = CHR ''0'' \<and> (x = CHR ''x'' \<or> x = CHR ''X'') then r else u
                | _ \<Rightarrow> u)
      in if ds = [] then Inl ValueError
         else (case hex_digits_val ds 0 of
                 None \<Rightarrow> Inl ValueError
               | Some n \<Rightarrow> Inr (if neg then - int n else int n)))"

text \<open>
  \<^verbatim>\<open>six.unichr\<close> (Python 3's \<^verbatim>\<open>chr\<close>): the one-character string of a code point,
  \<^verbatim>\<open>ValueError\<close> outside \<^verbatim>\<open>range(0x110000)\<close>.
\<close>

definition unichr :: "int \<Rightarrow> error + unicode" where
  "unichr i = (if 0 \<le> i \<and> i < 0x110000 then Inr [nat i] else Inl ValueError)"

text \<open>
  \<^verbatim>\<open>u"".join(f(_) for _ in xs)\<close>: the pieces are computed in order and concatenated;
  the first piece that raises ends the call.
\<close>

fun join :: "('a \<Rightarrow> error + unicode) \<Rightarrow> 'a list \<Rightarrow> error + unicode" where
  "join f [] = Inr []"
| "join f (x # xs) =
     (case f x of
        Inl e \<Rightarrow> Inl e
      | Inr s \<Rightarrow> (case join f xs of Inl e \<Rightarrow> Inl e | Inr t \<Rightarrow> Inr (s @ t)))"

text \<open>
  \<^verbatim>\<open>
  def _reversible(ex):
      if INVALID_UNICODE_PRIVATE_AREA:
          return (u"".join(_unichr(int('000f00%2x' % (_ if isinstance(_, int) else ord(_)), 16)) for _ in ex.object[ex.start:ex.end]), ex.end)
      else:
          return (u"".join(INVALID_UNICODE_CHAR_FORMAT % (_ if isinstance(_, int) else ord(_)) for _ in ex.object[ex.start:ex.end]), ex.end)
  \<close>
  The two settings come from \<^verbatim>\<open>lib.core.settings\<close> and are parameters here: the flag
  \<open>INVALID_UNICODE_PRIVATE_AREA\<close>, and \<open>char_format v\<close> for the outcome of
  \<^verbatim>\<open>INVALID_UNICODE_CHAR_FORMAT % v\<close>. An element of the span is an integer (Python 3)
  or a one-character string of which \<^verbatim>\<open>ord\<close> is taken (Python 2): in both cases the
  value of the byte, \<open>unat b\<close>.
\<close>

definition private_area_char :: "nat \<Rightarrow> error + unicode" where
  \<comment> \<open>\<^verbatim>\<open>_unichr(int('000f00%2x' % v, 16))\<close>\<close>
  "private_area_char v =
     (case int16 (''000f00'' @ fmt_2x v) of
        Inl e \<Rightarrow> Inl e
      | Inr n \<Rightarrow> unichr n)"

definition reversible :: "bool \<Rightarrow> (nat \<Rightarrow> error + unicode) \<Rightarrow> decode_error \<Rightarrow> error + unicode \<times> nat" where
  "reversible INVALID_UNICODE_PRIVATE_AREA char_format ex =
     (if INVALID_UNICODE_PRIVATE_AREA then
        (case join (\<lambda>b. private_area_char (unat b))
                   (slice (ex_object ex) (ex_start ex) (ex_end ex)) of
           Inl e \<Rightarrow> Inl e
         | Inr s \<Rightarrow> Inr (s, ex_end ex))
      else
        (case join (\<lambda>b. char_format (unat b))
                   (slice (ex_object ex) (ex_start ex) (ex_end ex)) of
           Inl e \<Rightarrow> Inl e
         | Inr s \<Rightarrow> Inr (s, ex_end ex)))"

section \<open>Facts about the generator\<close>

lemma lcg_value: "lcg r = ((1140671485 * r + 128201163) mod 16777216, (1140671485 * r + 128201163) mod 16777216)"
  by (simp add: lcg_def Let_def)

lemma lcg_fst_snd: "fst (lcg r) = snd (lcg r)"
  by (simp add: lcg_value)

lemma lcg_bounds: "0 \<le> snd (lcg r) \<and> snd (lcg r) < 2 ^ 24"
  by (simp add: lcg_value)

lemma lcg_mod: "lcg (v mod 2 ^ 24) = lcg v"
proof -
  have "(1140671485 * (v mod 16777216) + 128201163) mod 16777216
      = (1140671485 * v + 128201163) mod (16777216::int)"
    by (metis mod_add_left_eq mod_mult_right_eq)
  then show ?thesis by (simp add: lcg_value)
qed

lemma lcg_moves: "snd (lcg r) \<noteq> r"
proof
  assume eq: "snd (lcg r) = r"
  let ?x = "1140671485 * r + 128201163"
  have "(?x mod 16777216) mod 2 = ?x mod 2"
    by (rule mod_mod_cancel) simp
  moreover have "?x mod 16777216 = r"
    using eq by (simp add: lcg_value)
  ultimately have "r mod 2 = ?x mod 2" by simp
  then show False by presburger
qed

lemma randint_eq:
  "randint a b r =
     (if b - a + 1 = 0 then (Inl ZeroDivisionError, snd (lcg r))
      else (Inr (a + snd (lcg r) mod (b - a + 1)), snd (lcg r)))"
  by (simp add: randint_def py_mod_def lcg_value)

lemma choice_empty: "choice [] r = (Inl ZeroDivisionError, snd (lcg r))"
  by (simp add: choice_def randint_eq)

lemma choice_nonempty:
  assumes "xs \<noteq> []"
  shows "choice xs r = (Inr (xs ! nat (fst (lcg r) mod int (length xs))), snd (lcg r))"
proof -
  let ?n = "int (length xs)"
  let ?i = "snd (lcg r) mod ?n"
  have n: "0 < ?n" using assms by simp
  have i: "0 \<le> ?i \<and> ?i < ?n" using n by simp
  have "randint 0 (?n - 1) r = (Inr ?i, snd (lcg r))"
    using n by (simp add: randint_eq)
  then have "choice xs r = (getitem xs ?i, snd (lcg r))"
    by (simp add: choice_def)
  moreover have "getitem xs ?i = Inr (xs ! nat ?i)"
    using i by (simp add: getitem_def Let_def)
  ultimately show ?thesis by (simp add: lcg_fst_snd)
qed

lemma lcg_iter_Suc: "lcg_iter (Suc n) r = snd (lcg (lcg_iter n r))"
  by (induction n arbitrary: r) simp_all

lemma randint_valid:
  assumes "a \<le> b"
  shows "randint a b r = (Inr (a + snd (lcg r) mod (b - a + 1)), snd (lcg r))"
    and "a \<le> a + snd (lcg r) mod (b - a + 1)"
    and "a + snd (lcg r) mod (b - a + 1) \<le> b"
proof -
  have n: "0 < b - a + 1" using assms by simp
  then show "randint a b r = (Inr (a + snd (lcg r) mod (b - a + 1)), snd (lcg r))"
    by (simp add: randint_eq)
  show "a \<le> a + snd (lcg r) mod (b - a + 1)"
    using pos_mod_sign [OF n, of "snd (lcg r)"] by simp
  show "a + snd (lcg r) mod (b - a + 1) \<le> b"
    using pos_mod_bound [OF n, of "snd (lcg r)"] by simp
qed

lemma randint_reversed:
  assumes "b + 1 < a"
  shows "randint a b r = (Inr (a + snd (lcg r) mod (b - a + 1)), snd (lcg r))"
    and "b + 1 < a + snd (lcg r) mod (b - a + 1)"
    and "a + snd (lcg r) mod (b - a + 1) \<le> a"
proof -
  have n: "b - a + 1 < 0" using assms by simp
  then show "randint a b r = (Inr (a + snd (lcg r) mod (b - a + 1)), snd (lcg r))"
    by (simp add: randint_eq)
  show "b + 1 < a + snd (lcg r) mod (b - a + 1)"
    using neg_mod_bound [OF n, of "snd (lcg r)"] by simp
  show "a + snd (lcg r) mod (b - a + 1) \<le> a"
    using neg_mod_sign [OF n, of "snd (lcg r)"] by simp
qed

lemma randint_register: "snd (randint a b r) = snd (lcg r)"
  by (simp add: randint_eq)

lemma choice_register: "snd (choice xs r) = snd (lcg r)"
  by (cases "xs = []") (simp_all add: choice_empty choice_nonempty)

lemma draws_valid:
  assumes "\<forall>(a, b) \<in> set bounds. a \<le> b"
  shows "\<exists>vs. draws bounds r = (Inr vs, lcg_iter (length bounds) r) \<and> length vs = length bounds"
  using assms
proof (induction bounds arbitrary: r)
  case Nil
  then show ?case by simp
next
  case (Cons x bounds)
  obtain a b where x: "x = (a, b)" by (cases x)
  from Cons.prems x have ab: "a \<le> b" and rest: "\<forall>(a, b) \<in> set bounds. a \<le> b"
    by simp_all
  from Cons.IH [OF rest, of "snd (lcg r)"] obtain vs
    where vs: "draws bounds (snd (lcg r)) = (Inr vs, lcg_iter (length bounds) (snd (lcg r)))"
      and len: "length vs = length bounds"
    by blast
  show ?case
    using vs len by (simp add: x randint_valid(1) [OF ab])
qed

lemma sample_loop_nonempty:
  assumes "xs \<noteq> []"
  shows "sample_loop xs n acc r = (Inr (acc @ picks xs n r), lcg_iter n r)"
  using assms
proof (induction n arbitrary: acc r)
  case 0
  then show ?case by simp
next
  case (Suc n)
  then show ?case
    by (simp add: choice_nonempty)
qed

lemma sample_nonempty:
  assumes "xs \<noteq> []"
  shows "sample xs k r = (Inr (picks xs (nat k) r), lcg_iter (nat k) r)"
  by (simp add: sample_def sample_loop_nonempty [OF assms])

lemma sample_empty:
  assumes "0 < k"
  shows "sample [] k r = (Inl ZeroDivisionError, snd (lcg r))"
proof -
  from assms obtain n where "nat k = Suc n"
    by (cases "nat k") simp_all
  then show ?thesis
    by (simp add: sample_def choice_empty)
qed

lemma sample_no_rounds:
  assumes "k \<le> 0"
  shows "sample xs k r = (Inr [], r)"
  using assms by (simp add: sample_def)

lemma length_picks: "length (picks xs n r) = n"
  by (induction n arbitrary: r) simp_all

lemma set_picks:
  assumes "xs \<noteq> []"
  shows "set (picks xs n r) \<subseteq> set xs"
proof (induction n arbitrary: r)
  case 0
  then show ?case by simp
next
  case (Suc n)
  have "0 < int (length xs)" using assms by simp
  then have "nat (fst (lcg r) mod int (length xs)) < length xs"
    by (simp add: nat_less_iff)
  then show ?case using Suc by simp
qed

lemma nth_picks:
  assumes "xs \<noteq> []" and "i < n"
  shows "choice xs (lcg_iter i r) = (Inr (picks xs n r ! i), lcg_iter (Suc i) r)"
  using assms(2)
proof (induction n arbitrary: i r)
  case 0
  then show ?case by simp
next
  case (Suc n)
  show ?case
  proof (cases i)
    case 0
    then show ?thesis by (simp add: choice_nonempty [OF assms(1)])
  next
    case (Suc j)
    with Suc.prems have "j < n" by simp
    from Suc.IH [OF this, of "snd (lcg r)"] show ?thesis
      using Suc by simp
  qed
qed

section \<open>Facts about the error handler\<close>

declare hex_str.simps [simp del]

lemma hex_digit_code:
  assumes "d < 16"
  shows "of_char (hex_digit d) = (if d < 10 then 48 + d else 87 + d)"
  using assms by (simp add: hex_digit_def)

lemma hex_digit_not_space: "d < 16 \<Longrightarrow> \<not> is_space (hex_digit d)"
  by (simp add: is_space_def hex_digit_code Let_def)

lemma hex_val_hex_digit: "d < 16 \<Longrightarrow> hex_val (hex_digit d) = Some d"
  by (simp add: hex_val_def hex_digit_code Let_def)

lemma hex_val_literals:
  "hex_val CHR ''0'' = Some 0" "hex_val CHR ''f'' = Some 15" "hex_val CHR '' '' = None"
  by (simp_all add: hex_val_def)

lemma zero_not_space: "\<not> is_space CHR ''0''"
  by (simp add: is_space_def)

lemma strip_id:
  assumes "\<not> is_space c" and "\<not> is_space d"
  shows "strip (c # s @ [d]) = c # s @ [d]"
  using assms by (simp add: strip_def)

lemma fmt_2x_low: "v < 16 \<Longrightarrow> fmt_2x v = [CHR '' '', hex_digit v]"
  by (simp add: fmt_2x_def hex_str.simps)

lemma fmt_2x_high:
  assumes "16 \<le> v" and "v < 256"
  shows "fmt_2x v = [hex_digit (v div 16), hex_digit (v mod 16)]"
proof -
  have "v div 16 < 16" using assms by simp
  then have "hex_str v = [hex_digit (v div 16), hex_digit (v mod 16)]"
    using assms by (simp add: hex_str.simps [of v] hex_str.simps [of "v div 16"])
  then show ?thesis by (simp add: fmt_2x_def)
qed

lemma int16_plain:
  assumes "\<not> is_space d" and "hex_digits_val (CHR ''0'' # s @ [d]) 0 = r"
  shows "int16 (CHR ''0'' # CHR ''0'' # s @ [d]) = (case r of None \<Rightarrow> Inl ValueError | Some n \<Rightarrow> Inr (int n))"
proof -
  have "strip (CHR ''0'' # (CHR ''0'' # s) @ [d]) = CHR ''0'' # (CHR ''0'' # s) @ [d]"
    by (rule strip_id [OF zero_not_space assms(1)])
  then have s: "strip (CHR ''0'' # CHR ''0'' # s @ [d]) = CHR ''0'' # CHR ''0'' # s @ [d]"
    by simp
  have "hex_digits_val (CHR ''0'' # CHR ''0'' # s @ [d]) 0 = r"
    using assms(2) by (simp add: hex_val_literals)
  then show ?thesis
    by (simp add: int16_def s split: option.split)
qed

lemma private_area_char_low:
  assumes "v < 16"
  shows "private_area_char v = Inl ValueError"
proof -
  have "hex_digits_val (CHR ''0'' # ''0f00 '' @ [hex_digit v]) 0 = None"
    by (simp add: hex_val_literals)
  from int16_plain [OF hex_digit_not_space [OF assms] this]
  show ?thesis
    by (simp add: private_area_char_def fmt_2x_low [OF assms])
qed

lemma private_area_char_high:
  assumes "16 \<le> v" and "v < 256"
  shows "private_area_char v = Inr [0x0F0000 + v]"
proof -
  let ?h = "hex_digit (v div 16)" and ?l = "hex_digit (v mod 16)"
  have d: "v div 16 < 16" "v mod 16 < 16" using assms by simp_all
  have "hex_digits_val (CHR ''0'' # (''0f00'' @ [?h]) @ [?l]) 0 = Some (0x0F0000 + (16 * (v div 16) + v mod 16))"
    by (simp add: hex_val_literals hex_val_hex_digit [OF d(1)] hex_val_hex_digit [OF d(2)])
  then have "hex_digits_val (CHR ''0'' # (''0f00'' @ [?h]) @ [?l]) 0 = Some (0x0F0000 + v)"
    by simp
  from int16_plain [OF hex_digit_not_space [OF d(2)] this]
  have "int16 (''000f00'' @ fmt_2x v) = Inr (0x0F0000 + int v)"
    by (simp add: fmt_2x_high [OF assms])
  moreover have "nat (983040 + int v) = 983040 + v" by simp
  ultimately show ?thesis
    using assms(2) by (simp add: private_area_char_def unichr_def)
qed

lemma private_area_char_byte:
  "private_area_char (unat (b::byte)) = (if b < 0x10 then Inl ValueError else Inr [0x0F0000 + unat b])"
proof (cases "b < 0x10")
  case True
  then have "unat b < 16" by (simp add: word_less_nat_alt)
  then show ?thesis using True by (simp add: private_area_char_low)
next
  case False
  then have lo: "16 \<le> unat b" by (simp add: word_less_nat_alt)
  have hi: "unat b < 256" using unsigned_less [of b] by simp
  show ?thesis
    using False by (simp add: private_area_char_high [OF lo hi])
qed

lemma join_private:
  "join (\<lambda>b::byte. private_area_char (unat b)) bs
     = (if \<exists>b \<in> set bs. b < 0x10 then Inl ValueError
        else Inr (map (\<lambda>b. 0x0F0000 + unat b) bs))"
  by (induction bs) (simp_all add: private_area_char_byte)


section \<open>The claims about the generator\<close>

text \<open>
  C1. Determinism: once the generator is seeded with \<open>s\<close>, a run of draws with valid
  bounds \<open>a \<le> b\<close> yields one integer for each draw, and the same integers whatever
  the global held before the seed was set (\<open>rand1\<close> in one run, \<open>rand2\<close> in another):
  the sequence depends on the seed and the bounds alone.
\<close>

theorem seeded_draws_deterministic:
  assumes "\<forall>(a, b) \<in> set bounds. a \<le> b"
  shows "\<exists>vs. length vs = length bounds
           \<and> fst (draws bounds (snd (seed s rand1))) = Inr vs
           \<and> fst (draws bounds (snd (seed s rand2))) = Inr vs"
proof -
  from draws_valid [OF assms, of s] obtain vs
    where "draws bounds s = (Inr vs, lcg_iter (length bounds) s)" and "length vs = length bounds"
    by blast
  then show ?thesis by (simp add: seed_def)
qed

theorem seeded_draws_deterministic_witness:
  "(1::int) \<le> 6 \<and> (0::int) \<le> 1
   \<and> (\<exists>vs. length vs = length [(1::int, 6::int), (1, 6), (0, 1)]
           \<and> fst (draws [(1, 6), (1, 6), (0, 1)] (snd (seed 7 0))) = Inr vs
           \<and> fst (draws [(1, 6), (1, 6), (0, 1)] (snd (seed 7 12345))) = Inr vs)"
proof -
  have h: "\<forall>(a, b) \<in> set [(1::int, 6::int), (1, 6), (0, 1)]. a \<le> b" by simp
  from seeded_draws_deterministic [OF h, of 7 0 12345] show ?thesis by simp
qed

text \<open>
  C2. After \<^verbatim>\<open>seed(0)\<close> the first update of the global computes
  \<open>(1140671485 * 0 + 128201163) mod 16777216 = 10760651\<close>, and the call
  \<^verbatim>\<open>randint(0, 16777215)\<close> that follows the seed returns 10760651.
\<close>

theorem seed_zero_first_draw:
  "snd (seed 0 rand) = 0
   \<and> lcg (snd (seed 0 rand)) = (10760651, 10760651)
   \<and> (1140671485 * 0 + 128201163) mod 16777216 = (10760651::int)
   \<and> randint 0 16777215 (snd (seed 0 rand)) = (Inr 10760651, 10760651)"
  by (simp add: seed_def randint_eq lcg_value)

text \<open>
  C3. Range containment: for \<open>a \<le> b\<close> and any value of the global, \<^verbatim>\<open>randint(a, b)\<close>
  returns a value in the closed interval from \<open>a\<close> to \<open>b\<close>.
\<close>

theorem randint_in_range:
  assumes "a \<le> b"
  shows "\<exists>v. fst (randint a b rand) = Inr v \<and> a \<le> v \<and> v \<le> b"
  using randint_valid [OF assms, of rand] by simp

theorem randint_in_range_witness:
  "(3::int) \<le> 10 \<and> (\<exists>v. fst (randint 3 10 0) = Inr v \<and> 3 \<le> v \<and> v \<le> 10)"
proof -
  have h: "(3::int) \<le> 10" by simp
  from h randint_in_range [OF h, of 0] show ?thesis by (rule conjI)
qed

text \<open>
  C5, the claim as stated fails: \<^verbatim>\<open>seed(16777216)\<close> leaves the raw value 16777216
  in the global, which is neither \<open>16777216 mod 2 ^ 24 = 0\<close> nor below \<open>2 ^ 24\<close>.
\<close>

theorem seed_stores_raw_value:
  "snd (seed 16777216 rand_init) = 16777216
   \<and> snd (seed 16777216 rand_init) \<noteq> 16777216 mod 2 ^ 24
   \<and> \<not> snd (seed 16777216 rand_init) < 2 ^ 24"
  by (simp add: seed_def)

text \<open>
  C5, amended. Every update by \<^verbatim>\<open>_lcg\<close> leaves the global in \<open>[0, 2 ^ 24)\<close> and returns
  that reduced value; so the global is in range after every \<^verbatim>\<open>randint\<close> and \<^verbatim>\<open>choice\<close>
  and after any positive number of updates. \<^verbatim>\<open>seed(v)\<close> stores \<open>v\<close> itself, not
  reduced; the update that follows gives the same result as after
  \<^verbatim>\<open>seed(v mod 2 ** 24)\<close>.
\<close>

theorem register_reduced_after_update:
  "0 \<le> snd (lcg rand) \<and> snd (lcg rand) < 2 ^ 24
   \<and> fst (lcg rand) = snd (lcg rand)
   \<and> snd (randint a b rand) = snd (lcg rand)
   \<and> snd (choice xs rand) = snd (lcg rand)
   \<and> 0 \<le> lcg_iter (Suc n) rand \<and> lcg_iter (Suc n) rand < 2 ^ 24
   \<and> snd (seed v rand) = v
   \<and> lcg (snd (seed v rand)) = lcg (snd (seed (v mod 2 ^ 24) rand))"
proof -
  have "0 \<le> lcg_iter (Suc n) rand \<and> lcg_iter (Suc n) rand < 2 ^ 24"
    unfolding lcg_iter_Suc by (rule lcg_bounds)
  moreover have "lcg (snd (seed v rand)) = lcg (snd (seed (v mod 2 ^ 24) rand))"
    using lcg_mod [of v] by (simp add: seed_def)
  moreover have "snd (seed v rand) = v"
    by (simp add: seed_def)
  ultimately show ?thesis
    using lcg_bounds [of rand] lcg_fst_snd [of rand] randint_register [of a b rand]
      choice_register [of xs rand]
    by blast
qed

text \<open>
  C6, the claim as stated fails: \<^verbatim>\<open>randint(10, 3)\<close>, with the lower bound above
  the upper one, raises nothing and returns 9.
\<close>

theorem randint_reversed_bounds_returns:
  "(3::int) < 10 \<and> randint 10 3 rand_init = (Inr 9, 10760651)"
  by (simp add: randint_eq lcg_value rand_init_def)

text \<open>
  C6, amended. \<^verbatim>\<open>randint(a, b)\<close> returns a value whenever \<open>a \<le> b\<close>. For \<open>a > b\<close>
  there is no check of the bounds: with \<open>a = b + 1\<close> the modulo raises
  \<^verbatim>\<open>ZeroDivisionError\<close>, and with \<open>a > b + 1\<close> the call returns a value \<open>v\<close> with
  \<open>b + 1 < v \<le> a\<close>.
\<close>

theorem randint_outcome:
  "(a \<le> b \<longrightarrow> (\<exists>v. fst (randint a b rand) = Inr v))
   \<and> (a = b + 1 \<longrightarrow> fst (randint a b rand) = Inl ZeroDivisionError)
   \<and> (b + 1 < a \<longrightarrow> (\<exists>v. fst (randint a b rand) = Inr v \<and> b + 1 < v \<and> v \<le> a))"
proof (intro conjI impI)
  assume "a \<le> b"
  then show "\<exists>v. fst (randint a b rand) = Inr v"
    by (simp add: randint_valid(1))
next
  assume "a = b + 1"
  then show "fst (randint a b rand) = Inl ZeroDivisionError"
    by (simp add: randint_eq)
next
  assume "b + 1 < a"
  from randint_reversed [OF this, of rand]
  show "\<exists>v. fst (randint a b rand) = Inr v \<and> b + 1 < v \<and> v \<le> a"
    by simp
qed

theorem randint_outcome_witness:
  "((3::int) \<le> 10 \<and> (\<exists>v. fst (randint 3 10 0) = Inr v))
   \<and> ((4::int) = 3 + 1 \<and> fst (randint 4 3 0) = Inl ZeroDivisionError)
   \<and> ((3::int) + 1 < 10 \<and> (\<exists>v. fst (randint 10 3 0) = Inr v \<and> 3 + 1 < v \<and> v \<le> 10))"
  using randint_outcome [of 3 10 0] randint_outcome [of 4 3 0] randint_outcome [of 10 3 0]
  by simp

text \<open>
  C7, the claim as stated fails: \<^verbatim>\<open>choice([])\<close> does fail, but with the
  \<^verbatim>\<open>ZeroDivisionError\<close> of the modulo in \<^verbatim>\<open>_randint(0, -1)\<close>; the code has no error of
  its own for an empty sequence.
\<close>

theorem choice_empty_zero_division:
  "fst (choice ([]::int list) rand_init) = Inl ZeroDivisionError
   \<and> fst (choice ([]::int list) rand_init) = fst (randint 0 (- 1) rand_init)"
  by (simp add: choice_empty randint_eq)

text \<open>
  C7, amended. \<^verbatim>\<open>choice(seq)\<close> fails with \<^verbatim>\<open>ZeroDivisionError\<close> whenever \<^verbatim>\<open>seq\<close> is
  empty, and \<^verbatim>\<open>sample(population, k)\<close> fails with \<^verbatim>\<open>ZeroDivisionError\<close> whenever
  \<^verbatim>\<open>population\<close> is empty and \<open>k > 0\<close>; for non-empty inputs neither raises.
\<close>

theorem choice_sample_failures:
  fixes xs :: "'a list"
  shows "fst (choice ([]::'a list) rand) = Inl ZeroDivisionError
   \<and> (0 < k \<longrightarrow> fst (sample ([]::'a list) k rand) = Inl ZeroDivisionError)
   \<and> (xs \<noteq> [] \<longrightarrow> (\<exists>x. fst (choice xs rand) = Inr x) \<and> (\<exists>ys. fst (sample xs k rand) = Inr ys))"
  by (simp add: choice_empty sample_empty choice_nonempty sample_nonempty)

theorem choice_sample_failures_witness:
  "((0::int) < 2 \<and> fst (sample ([]::int list) 2 0) = Inl ZeroDivisionError)
   \<and> ([10, 20, 30::int] \<noteq> []
        \<and> (\<exists>x. fst (choice [10, 20, 30::int] 0) = Inr x)
        \<and> (\<exists>ys. fst (sample [10, 20, 30::int] 2 0) = Inr ys))"
proof -
  have k: "(0::int) < 2" by simp
  have p: "[10, 20, 30::int] \<noteq> []" by simp
  from k p choice_sample_failures [of 0 2 "[10, 20, 30::int]"]
  show ?thesis by blast
qed

text \<open>
  C8, the claim as stated fails: \<^verbatim>\<open>choice([])\<close> on the initial global 0 fails and
  leaves 10760651 in the global.
\<close>

theorem failed_choice_moves_register:
  "choice ([]::int list) rand_init = (Inl ZeroDivisionError, 10760651)
   \<and> snd (choice ([]::int list) rand_init) \<noteq> rand_init"
  by (simp add: choice_empty lcg_value rand_init_def)

text \<open>
  C8, amended. When \<^verbatim>\<open>randint\<close>, \<^verbatim>\<open>choice\<close> or \<^verbatim>\<open>sample\<close> fails, the global is not
  what it was before the call: it has been advanced by exactly one update of \<^verbatim>\<open>_lcg\<close>,
  made before the exception was raised. \<^verbatim>\<open>seed\<close> is a plain assignment: it returns
  and cannot fail.
\<close>

theorem failure_after_one_update:
  "seed v rand = ((), v)
   \<and> (isl (fst (randint a b rand)) \<longrightarrow>
       snd (randint a b rand) = snd (lcg rand) \<and> snd (randint a b rand) \<noteq> rand)
   \<and> (isl (fst (choice xs rand)) \<longrightarrow>
       snd (choice xs rand) = snd (lcg rand) \<and> snd (choice xs rand) \<noteq> rand)
   \<and> (isl (fst (sample xs k rand)) \<longrightarrow>
       snd (sample xs k rand) = snd (lcg rand) \<and> snd (sample xs k rand) \<noteq> rand)"
proof (intro conjI impI)
  show "seed v rand = ((), v)" by (simp add: seed_def)
  show "snd (randint a b rand) = snd (lcg rand)" by (rule randint_register)
  show "snd (randint a b rand) \<noteq> rand" by (simp add: randint_register lcg_moves)
  show "snd (choice xs rand) = snd (lcg rand)" by (rule choice_register)
  show "snd (choice xs rand) \<noteq> rand" by (simp add: choice_register lcg_moves)
next
  assume f: "isl (fst (sample xs k rand))"
  have e: "xs = [] \<and> 0 < k"
  proof (rule ccontr)
    assume "\<not> (xs = [] \<and> 0 < k)"
    then consider "xs \<noteq> []" | "k \<le> 0" by fastforce
    then show False
    proof cases
      case 1
      with f show False by (simp add: sample_nonempty)
    next
      case 2
      with f show False by (simp add: sample_no_rounds)
    qed
  qed
  then show "snd (sample xs k rand) = snd (lcg rand)" by (simp add: sample_empty)
  with lcg_moves [of rand] show "snd (sample xs k rand) \<noteq> rand" by simp
qed

theorem failure_after_one_update_witness:
  "(isl (fst (randint 4 3 0)) \<and> snd (randint 4 3 0) = snd (lcg 0) \<and> snd (randint 4 3 0) \<noteq> 0)
   \<and> (isl (fst (choice ([]::int list) 0))
        \<and> snd (choice ([]::int list) 0) = snd (lcg 0) \<and> snd (choice ([]::int list) 0) \<noteq> 0)
   \<and> (isl (fst (sample ([]::int list) 2 0))
        \<and> snd (sample ([]::int list) 2 0) = snd (lcg 0) \<and> snd (sample ([]::int list) 2 0) \<noteq> 0)"
proof -
  have 1: "isl (fst (randint 4 3 0))" by (simp add: randint_eq)
  have 2: "isl (fst (choice ([]::int list) 0))" by (simp add: choice_empty)
  have 3: "isl (fst (sample ([]::int list) 2 0))" by (simp add: sample_empty)
  from 1 2 3 failure_after_one_update [of 5 0 4 3 "[]::int list" 2]
  show ?thesis by blast
qed

text \<open>
  C9. Sample shape: for a non-empty population \<open>P\<close> and \<open>k \<ge> 0\<close>, \<^verbatim>\<open>sample(P, k)\<close>
  returns a list of length \<open>k\<close> of members of \<open>P\<close>, whose \<open>i\<close>-th element is what the
  \<open>i\<close>-th of \<open>k\<close> successive calls of \<^verbatim>\<open>choice(P)\<close> returns (each call starts from the
  global the previous one left), so an element may occur again.
\<close>

theorem sample_shape:
  assumes "P \<noteq> []" and "0 \<le> k"
  shows "\<exists>ys. sample P k rand = (Inr ys, lcg_iter (nat k) rand)
           \<and> int (length ys) = k \<and> set ys \<subseteq> set P
           \<and> (\<forall>i < nat k. choice P (lcg_iter i rand) = (Inr (ys ! i), lcg_iter (Suc i) rand))"
proof (intro exI conjI allI impI)
  show "sample P k rand = (Inr (picks P (nat k) rand), lcg_iter (nat k) rand)"
    by (rule sample_nonempty [OF assms(1)])
  show "int (length (picks P (nat k) rand)) = k"
    using assms(2) by (simp add: length_picks)
  show "set (picks P (nat k) rand) \<subseteq> set P"
    by (rule set_picks [OF assms(1)])
  fix i assume "i < nat k"
  then show "choice P (lcg_iter i rand) = (Inr (picks P (nat k) rand ! i), lcg_iter (Suc i) rand)"
    by (rule nth_picks [OF assms(1)])
qed

theorem sample_shape_witness:
  "[10, 20, 30::nat] \<noteq> [] \<and> (0::int) \<le> 2
   \<and> (\<exists>ys. sample [10, 20, 30::nat] 2 0 = (Inr ys, lcg_iter (nat 2) 0)
           \<and> int (length ys) = 2 \<and> set ys \<subseteq> set [10, 20, 30::nat]
           \<and> (\<forall>i < nat 2. choice [10, 20, 30::nat] (lcg_iter i 0) = (Inr (ys ! i), lcg_iter (Suc i) 0)))"
proof -
  have p: "[10, 20, 30::nat] \<noteq> []" by simp
  have k: "(0::int) \<le> 2" by simp
  from p k sample_shape [OF p k, of 0] show ?thesis by (intro conjI)
qed

section \<open>The claims about the error handler\<close>

text \<open>
  C10. With \<open>INVALID_UNICODE_PRIVATE_AREA\<close> set, the handler raises \<^verbatim>\<open>ValueError\<close> for
  every failing span that holds a byte below \<open>0x10\<close> (the template \<^verbatim>\<open>000f00%2x\<close> pads a
  single hexadecimal digit with a space, and the string is then no base-16 literal);
  for a span whose bytes are all at least \<open>0x10\<close> it returns one code point
  \<open>0x0F0000 + v\<close> for each byte \<open>v\<close>, in order, together with the offset \<^verbatim>\<open>ex.end\<close>.
\<close>

theorem reversible_private_area:
  "reversible True char_format ex =
     (if \<exists>b \<in> set (slice (ex_object ex) (ex_start ex) (ex_end ex)). b < 0x10
      then Inl ValueError
      else Inr (map (\<lambda>b. 0x0F0000 + unat b) (slice (ex_object ex) (ex_start ex) (ex_end ex)),
                ex_end ex))"
  by (simp add: reversible_def join_private)

theorem reversible_private_area_witness:
  "reversible True (\<lambda>v. Inr []) \<lparr>ex_object = [0x61, 0x0A, 0xFF], ex_start = 1, ex_end = 3\<rparr>
     = Inl ValueError
   \<and> reversible True (\<lambda>v. Inr []) \<lparr>ex_object = [0x61, 0x80, 0xFF], ex_start = 1, ex_end = 3\<rparr>
     = Inr ([0x0F0080, 0x0F00FF], 3)"
  using reversible_private_area [of "\<lambda>v. Inr []" "\<lparr>ex_object = [0x61, 0x0A, 0xFF], ex_start = 1, ex_end = 3\<rparr>"]
    reversible_private_area [of "\<lambda>v. Inr []" "\<lparr>ex_object = [0x61, 0x80, 0xFF], ex_start = 1, ex_end = 3\<rparr>"]
  by (simp add: slice_def)

text \<open>
  C4, at the byte \<open>0x00\<close>: with \<open>INVALID_UNICODE_PRIVATE_AREA\<close> set, the handler called
  on the failing span that holds the single byte \<open>0x00\<close> raises \<^verbatim>\<open>ValueError\<close>; it
  does not return the code point \<open>0x0F0000\<close>. The string parsed is \<^verbatim>\<open>000f00 0\<close>.
\<close>

theorem reversible_zero_byte:
  "reversible True (\<lambda>v. Inr []) \<lparr>ex_object = [0x00], ex_start = 0, ex_end = 1\<rparr> = Inl ValueError
   \<and> ''000f00'' @ fmt_2x (unat (0x00 :: byte)) = ''000f00 0''"
proof
  show "reversible True (\<lambda>v. Inr []) \<lparr>ex_object = [0x00], ex_start = 0, ex_end = 1\<rparr> = Inl ValueError"
    by (simp add: reversible_def join_private slice_def)
  have "hex_digit 0 = CHR ''0''"
    by (simp add: hex_digit_def) code_simp
  then show "''000f00'' @ fmt_2x (unat (0x00 :: byte)) = ''000f00 0''"
    by (simp add: fmt_2x_low)
qed


end
